theory Spec2Isabelle
  imports Complex_Main "HOL-Library.Word" "HOL-Library.Monad_Syntax"
begin

unbundle bit_operations_syntax

section \<open>Constants of Si5351SDR.h\<close>

definition SI5351A_ADDRESS :: "8 word" where
  "SI5351A_ADDRESS = 0xC0"

definition Si5351A_XTAL_FREQ :: "32 word" where
  "Si5351A_XTAL_FREQ = 24999117"

definition SI_SYNTH_PLL_A :: "8 word" where
  "SI_SYNTH_PLL_A = 26"

definition SI_SYNTH_MS_0 :: "8 word" where
  "SI_SYNTH_MS_0 = 42"

definition SI_SYNTH_MS_1 :: "8 word" where
  "SI_SYNTH_MS_1 = 50"

definition SI_R_DIV_1 :: "8 word" where
  "SI_R_DIV_1 = 0"

definition CLK0_PHOFF :: "8 word" where
  "CLK0_PHOFF = 165"

definition CLK1_PHOFF :: "8 word" where
  "CLK1_PHOFF = 166"

section \<open>The C types of Si5351\_routines.c\<close>

text \<open>
  \<^verbatim>\<open>unsigned long\<close> is a 32-bit word and \<^verbatim>\<open>char\<close> / \<^verbatim>\<open>unsigned char\<close> an 8-bit word;
  \<^verbatim>\<open>unsigned\<close> is taken at its smallest width, 16 bits (the only values the driver stores
  in it are 44 and 124).  Arithmetic on words wraps, a conversion to a narrower type is
  \<^term>\<open>ucast\<close>.

  \<^verbatim>\<open>float\<close> is IEEE 754 single precision with the default rounding (to nearest, ties to
  even): a finite float is a rational number that is an integer multiple of \<open>2\<^sup>-\<^sup>1\<^sup>4\<^sup>9\<close>
  with at most 24 significant bits, and the result of an operation is the exact result
  rounded to such a number.  An operation whose result is not a finite number (overflow,
  division by zero) is \<^term>\<open>None\<close>, and so is a conversion to \<^verbatim>\<open>unsigned long\<close> of a
  value that the type cannot hold, which C leaves undefined.
\<close>

type_synonym float = rat

fun bit_len :: "nat \<Rightarrow> nat" where
  \<comment> \<open>the number of binary digits\<close>
  "bit_len n = (if n = 0 then 0 else Suc (bit_len (n div 2)))"

definition rne :: "rat \<Rightarrow> int" where
  \<comment> \<open>the nearest integer, the even one of the two when they are equally near\<close>
  "rne x = (let n = \<lfloor>x\<rfloor>; r = x - of_int n
            in if 2 * r < 1 then n
               else if 1 < 2 * r then n + 1
               else if even n then n else n + 1)"

definition rnd :: "rat \<Rightarrow> rat" where
  \<comment> \<open>\<open>x\<close> in units of \<open>2\<^sup>-\<^sup>1\<^sup>4\<^sup>9\<close> is \<open>n\<close>; below \<open>2\<^sup>2\<^sup>4\<close> units the floats are one unit apart,
      from there on \<open>2\<^sup>s\<close> units apart where \<open>n\<close> has \<open>s + 24\<close> bits\<close>
  "rnd x = (let n = x * 2 ^ 149;
                 N = nat \<lfloor>\<bar>n\<bar>\<rfloor>;
                 s = (if N < 2 ^ 24 then 0 else bit_len N - 24)
             in of_int (rne (n / 2 ^ s)) * 2 ^ s / 2 ^ 149)"

definition finite_float :: "rat \<Rightarrow> float option" where
  "finite_float r = (if \<bar>r\<bar> < 2 ^ 128 then Some r else None)"

definition float_of_ulong :: "32 word \<Rightarrow> float" where
  "float_of_ulong w = rnd (of_nat (unat w))"

definition float_of_int :: "int \<Rightarrow> float" where
  "float_of_int i = rnd (of_int i)"

definition fmul :: "float \<Rightarrow> float \<Rightarrow> float option" where
  "fmul a b = finite_float (rnd (a * b))"

definition fdiv :: "float \<Rightarrow> float \<Rightarrow> float option" where
  "fdiv a b = (if b = 0 then None else finite_float (rnd (a / b)))"

definition ulong_of_float :: "float \<Rightarrow> 32 word option" where
  \<comment> \<open>the fractional part is discarded\<close>
  "ulong_of_float x =
     (let t = (if x < 0 then \<lceil>x\<rceil> else \<lfloor>x\<rfloor>)
      in if 0 \<le> t \<and> t < 2 ^ 32 then Some (word_of_int t) else None)"

section \<open>The I2C bus\<close>

datatype i2c = I2C1_Start | I2C1_Wr "8 word" | I2C1_Stop

text \<open>Every function of the driver returns the bus traffic it causes, in order.\<close>

definition sendRegister :: "8 word \<Rightarrow> 8 word \<Rightarrow> i2c list" where
  "sendRegister reg_addr reg_value =
     [I2C1_Start, I2C1_Wr SI5351A_ADDRESS, I2C1_Wr reg_addr, I2C1_Wr reg_value, I2C1_Stop]"

text \<open>
  The register writes that a stretch of bus traffic carries: the pairs of register address
  and value of its transactions to the device.
\<close>

fun reg_writes :: "i2c list \<Rightarrow> (8 word \<times> 8 word) list" where
  "reg_writes (I2C1_Start # I2C1_Wr a # I2C1_Wr r # I2C1_Wr v # I2C1_Stop # bus) =
     (if a = SI5351A_ADDRESS then (r, v) # reg_writes bus else reg_writes bus)"
| "reg_writes (e # bus) = reg_writes bus"
| "reg_writes [] = []"

section \<open>setupPLL\<close>

definition setupPLL :: "8 word \<Rightarrow> 8 word \<Rightarrow> 32 word \<Rightarrow> 32 word \<Rightarrow> i2c list option" where
  "setupPLL pll mult num denom = do {
     q \<leftarrow> fdiv (float_of_ulong num) (float_of_ulong denom);
     f \<leftarrow> fmul (float_of_int 128) q;
     P1 \<leftarrow> ulong_of_float f;
     let P1 = 128 * ucast mult + P1 - 512;
     q \<leftarrow> fdiv (float_of_ulong num) (float_of_ulong denom);
     f \<leftarrow> fmul (float_of_int 128) q;
     P2 \<leftarrow> ulong_of_float f;
     let P2 = 128 * num - denom * P2;
     let P3 = denom;
     Some (sendRegister (pll + 0) (ucast (drop_bit 8 (P3 AND 0x0000FF00)))
         @ sendRegister (pll + 1) (ucast (P3 AND 0x000000FF))
         @ sendRegister (pll + 2) (ucast (drop_bit 16 (P1 AND 0x00030000)))
         @ sendRegister (pll + 3) (ucast (drop_bit 8 (P1 AND 0x0000FF00)))
         @ sendRegister (pll + 4) (ucast (P1 AND 0x000000FF))
         @ sendRegister (pll + 5) (ucast (drop_bit 12 (P3 AND 0x000F0000)
                                          OR drop_bit 16 (P2 AND 0x000F0000)))
         @ sendRegister (pll + 6) (ucast (drop_bit 8 (P2 AND 0x0000FF00)))
         @ sendRegister (pll + 7) (ucast (P2 AND 0x000000FF)))
   }"

section \<open>setupMultisynth\<close>

definition setupMultisynth :: "8 word \<Rightarrow> 32 word \<Rightarrow> 8 word \<Rightarrow> i2c list" where
  "setupMultisynth synth divider rDiv =
     (let P1 = 128 * divider - 512;
          P2 = (0 :: 32 word);
          P3 = (1 :: 32 word)
      in sendRegister (synth + 0) (ucast (drop_bit 8 (P3 AND 0x0000FF00)))
       @ sendRegister (synth + 1) (ucast (P3 AND 0x000000FF))
       @ sendRegister (synth + 2) (ucast (drop_bit 16 (P1 AND 0x00030000) OR ucast rDiv))
       @ sendRegister (synth + 3) (ucast (drop_bit 8 (P1 AND 0x0000FF00)))
       @ sendRegister (synth + 4) (ucast (P1 AND 0x000000FF))
       @ sendRegister (synth + 5) (ucast (drop_bit 12 (P3 AND 0x000F0000)
                                          OR drop_bit 16 (P2 AND 0x000F0000)))
       @ sendRegister (synth + 6) (ucast (drop_bit 8 (P2 AND 0x0000FF00)))
       @ sendRegister (synth + 7) (ucast (P2 AND 0x000000FF)))"

section \<open>si5351aSetFrequency\<close>

text \<open>
  The local \<^verbatim>\<open>divider\<close> is declared without a value and assigned by two independent
  \<^verbatim>\<open>if\<close> statements; \<^term>\<open>None\<close> is the variable before any assignment.
\<close>

definition assign_divider :: "32 word \<Rightarrow> 16 word option" where
  "assign_divider frequency =
     (let divider = None;
          divider = (if frequency < 9050001 then Some 124 else divider);
          divider = (if frequency > 9050000 then Some 44 else divider)
      in divider)"

text \<open>The locals of \<^verbatim>\<open>si5351aSetFrequency\<close> as they stand before the first call.\<close>

record locals =
  sf_divider :: "16 word"
  sf_pllFreq :: "32 word"
  sf_mult :: "8 word"
  sf_l :: "32 word"
  sf_num :: "32 word"
  sf_denom :: "32 word"

definition si5351aSetFrequency_locals :: "32 word \<Rightarrow> locals option" where
  "si5351aSetFrequency_locals frequency = do {
     let xtalFreq = Si5351A_XTAL_FREQ;
     divider \<leftarrow> assign_divider frequency;
     let pllFreq = ucast divider * frequency;
     let mult = ucast (pllFreq div xtalFreq);
     let l = pllFreq mod xtalFreq;
     let f = float_of_ulong l;
     f \<leftarrow> fmul f (float_of_int 1048575);
     f \<leftarrow> fdiv f (float_of_ulong xtalFreq);
     num \<leftarrow> ulong_of_float f;
     let denom = 1048575;
     Some \<lparr>sf_divider = divider, sf_pllFreq = pllFreq, sf_mult = mult, sf_l = l,
           sf_num = num, sf_denom = denom\<rparr>
   }"

definition si5351aSetFrequency :: "32 word \<Rightarrow> i2c list option" where
  "si5351aSetFrequency frequency = do {
     v \<leftarrow> si5351aSetFrequency_locals frequency;
     pll \<leftarrow> setupPLL SI_SYNTH_PLL_A (sf_mult v) (sf_num v) (sf_denom v);
     Some (pll
         @ setupMultisynth SI_SYNTH_MS_0 (ucast (sf_divider v)) SI_R_DIV_1
         @ setupMultisynth SI_SYNTH_MS_1 (ucast (sf_divider v)) SI_R_DIV_1
         @ sendRegister CLK0_PHOFF (ucast (sf_divider v))
         @ sendRegister CLK1_PHOFF 0)
   }"

section \<open>The quantities the specification names\<close>

text \<open>
  The specification states the numerator of the planner and the two packed parameters of the
  PLL in exact integer arithmetic.  These definitions follow its words (section 4.4, step 3,
  and section 4.2); the driver's own computation is the one above.
\<close>

definition spec_num :: "32 word \<Rightarrow> nat" where
  "spec_num remainder = unat remainder * 1048575 div unat Si5351A_XTAL_FREQ"

definition spec_P1 :: "nat \<Rightarrow> nat \<Rightarrow> nat \<Rightarrow> int" where
  "spec_P1 mult num denom = 128 * int mult + int (128 * num div denom) - 512"

definition spec_P2 :: "nat \<Rightarrow> nat \<Rightarrow> int" where
  "spec_P2 num denom = 128 * int num - int denom * int (128 * num div denom)"

text \<open>
  The inverse of the frame layout of section 4.2: from the eight bytes of a frame, in the
  order of their offsets, the parameters \<open>(P1, P2, P3)\<close>.
\<close>

definition unpack_frame :: "8 word list \<Rightarrow> (nat \<times> nat \<times> nat) option" where
  "unpack_frame bs =
     (case bs of
        [b0, b1, b2, b3, b4, b5, b6, b7] \<Rightarrow>
          Some (unat b2 mod 4 * 65536 + unat b3 * 256 + unat b4,
                unat b5 mod 16 * 65536 + unat b6 * 256 + unat b7,
                unat b5 div 16 * 65536 + unat b0 * 256 + unat b1)
      | _ \<Rightarrow> None)"

text \<open>The writes of a call that go to the registers \<open>lo\<close> to \<open>hi\<close>, in the order of the call.\<close>

definition writes_to :: "8 word \<Rightarrow> 8 word \<Rightarrow> i2c list \<Rightarrow> (8 word \<times> 8 word) list" where
  "writes_to lo hi bus = filter (\<lambda>w. lo \<le> fst w \<and> fst w \<le> hi) (reg_writes bus)"

section \<open>Rounding to single precision\<close>

declare bit_len.simps [simp del]

lemma bit_len_bounds: "0 < n \<Longrightarrow> 2 ^ (bit_len n - 1) \<le> n \<and> n < 2 ^ bit_len n"
proof (induction n rule: bit_len.induct)
  case (1 n)
  show ?case
  proof (cases "n div 2 = 0")
    case True
    with 1 have "n = 1" by (cases n) auto
    then show ?thesis by (simp add: bit_len.simps)
  next
    case False
    with 1 have IH: "2 ^ (bit_len (n div 2) - 1) \<le> n div 2" "n div 2 < 2 ^ bit_len (n div 2)"
      by auto
    have pos: "0 < bit_len (n div 2)" using False by (simp add: bit_len.simps[of "n div 2"])
    have eq: "bit_len n = Suc (bit_len (n div 2))" using 1(2) by (simp add: bit_len.simps[of n])
    have "2 ^ (bit_len n - 1) = 2 * 2 ^ (bit_len (n div 2) - 1)"
      using pos eq by (cases "bit_len (n div 2)") auto
    also have "\<dots> \<le> 2 * (n div 2)" using IH(1) by simp
    also have "\<dots> \<le> n" by simp
    finally have a: "2 ^ (bit_len n - 1) \<le> n" .
    have "n < 2 * (n div 2) + 2" by presburger
    also have "\<dots> \<le> 2 * 2 ^ bit_len (n div 2)" using IH(2) by simp
    finally have b: "n < 2 ^ bit_len n" using eq by simp
    from a b show ?thesis ..
  qed
qed

lemma bit_len_eqI:
  assumes "2 ^ k \<le> n" "n < 2 ^ Suc k"
  shows "bit_len n = Suc k"
proof -
  have pos: "0 < n" using assms(1) by (metis less_le_trans zero_less_numeral zero_less_power)
  note b = bit_len_bounds[OF pos]
  have "(2::nat) ^ (bit_len n - 1) < 2 ^ Suc k" using b assms by linarith
  then have 1: "bit_len n - 1 < Suc k" by (rule power_less_imp_less_exp[rotated]) simp
  have "(2::nat) ^ k < 2 ^ bit_len n" using b assms by linarith
  then have 2: "k < bit_len n" by (rule power_less_imp_less_exp[rotated]) simp
  from 1 2 show ?thesis by linarith
qed

lemma rne_err: "\<bar>of_int (rne x) - x\<bar> \<le> 1 / 2"
proof -
  define n where "n = \<lfloor>x\<rfloor>"
  have "of_int n \<le> x" "x < of_int n + 1" unfolding n_def by linarith+
  then show ?thesis
    unfolding rne_def Let_def n_def[symmetric] by (auto simp: abs_if)
qed

lemma rne_of_int [simp]: "rne (of_int m) = m"
  by (simp add: rne_def)

lemma rne_near: "2 * \<bar>x - of_int m\<bar> < 1 \<Longrightarrow> rne x = m"
proof -
  assume a: "2 * \<bar>x - of_int m\<bar> < 1"
  have e: "\<bar>of_int (rne x) - x\<bar> \<le> 1 / 2" by (rule rne_err)
  have "\<bar>(of_int (rne x) :: rat) - of_int m\<bar> = \<bar>(of_int (rne x) - x) + (x - of_int m)\<bar>"
    by simp
  also have "\<dots> \<le> \<bar>of_int (rne x) - x\<bar> + \<bar>x - of_int m\<bar>" by (rule abs_triangle_ineq)
  also have "\<dots> < 1"
  proof -
    define p where "p = \<bar>of_int (rne x) - x\<bar>"
    define q where "q = \<bar>x - of_int m\<bar>"
    have "2 * q < 1" "p \<le> 1 / 2" using a e unfolding p_def q_def by simp_all
    then have "p + q < 1" by linarith
    then show ?thesis unfolding p_def q_def .
  qed
  finally have "\<bar>(of_int (rne x) :: rat) - of_int m\<bar> < 1" .
  then have "\<bar>(of_int (rne x - m) :: rat)\<bar> < 1" by simp
  then have "\<bar>rne x - m\<bar> < 1" by (metis of_int_abs of_int_less_1_iff)
  then show ?thesis by linarith
qed

lemma rne_tie: "even m \<Longrightarrow> x = of_int m + 1 / 2 \<or> x = of_int m - 1 / 2 \<Longrightarrow> rne x = m"
proof -
  assume ev: "even m" and x: "x = of_int m + 1 / 2 \<or> x = of_int m - 1 / 2"
  from x show ?thesis
  proof
    assume x: "x = of_int m + 1 / 2"
    have "\<lfloor>x\<rfloor> = m" unfolding x by linarith
    then show ?thesis using ev unfolding rne_def Let_def by (simp add: x)
  next
    assume x: "x = of_int m - 1 / 2"
    have f: "\<lfloor>x\<rfloor> = m - 1" unfolding x by linarith
    then show ?thesis using ev unfolding rne_def Let_def by (simp add: x)
  qed
qed

lemma rnd_binade:
  assumes lo: "2 ^ (23 + s) \<le> \<bar>x\<bar> * 2 ^ 149" and hi: "\<bar>x\<bar> * 2 ^ 149 < 2 ^ (24 + s)"
  shows "rnd x = of_int (rne (x * 2 ^ 149 / 2 ^ s)) * 2 ^ s / 2 ^ 149"
proof -
  define N where "N = nat \<lfloor>\<bar>x * 2 ^ 149\<bar>\<rfloor>"
  have ab: "\<bar>x * 2 ^ 149\<bar> = \<bar>x\<bar> * 2 ^ 149" by (simp add: abs_mult)
  have "(of_nat (2 ^ (23 + s)) :: rat) \<le> \<bar>x\<bar> * 2 ^ 149" using lo by simp
  then have "int (2 ^ (23 + s)) \<le> \<lfloor>\<bar>x\<bar> * 2 ^ 149\<rfloor>" by (simp add: le_floor_iff)
  then have Nlo: "2 ^ (23 + s) \<le> N" unfolding N_def ab by linarith
  have "\<bar>x\<bar> * 2 ^ 149 < of_int (2 ^ (24 + s))" using hi by simp
  then have "\<lfloor>\<bar>x\<bar> * 2 ^ 149\<rfloor> < 2 ^ (24 + s)" by (simp add: floor_less_iff)
  then have Nhi: "N < 2 ^ (24 + s)" unfolding N_def ab by (simp add: nat_less_iff)
  have s: "(if N < 2 ^ 24 then 0 else bit_len N - 24) = s"
  proof (cases "N < 2 ^ 24")
    case True
    then have "(2::nat) ^ (23 + s) < 2 ^ 24" using Nlo by linarith
    then have "23 + s < 24" by (rule power_less_imp_less_exp[rotated]) simp
    then have "s = 0" by simp
    then show ?thesis using True by simp
  next
    case False
    have "bit_len N = Suc (23 + s)" by (rule bit_len_eqI) (use Nlo Nhi in auto)
    then show ?thesis using False by simp
  qed
  show ?thesis unfolding rnd_def Let_def N_def[symmetric] s ..
qed

lemma rnd_0 [simp]: "rnd 0 = 0"
  by (simp add: rnd_def rne_def)

lemma rnd_rel_err:
  assumes x: "1 / 2 ^ 126 \<le> x"
  shows "\<bar>rnd x - x\<bar> \<le> x / 2 ^ 24"
proof -
  define n where "n = x * 2 ^ 149"
  define N where "N = nat \<lfloor>n\<rfloor>"
  have xpos: "0 < x" by (rule less_le_trans[OF _ x]) simp
  have npos: "0 < n" unfolding n_def using xpos by simp
  have "1 / 2 ^ 126 * 2 ^ 149 \<le> n" unfolding n_def using x by (simp add: mult_right_mono del: times_divide_eq_left)
  then have n23: "2 ^ 23 \<le> n" by simp
  have fl0: "0 \<le> \<lfloor>n\<rfloor>" using npos by simp
  have NN: "(of_nat N :: rat) = of_int \<lfloor>n\<rfloor>" unfolding N_def using fl0 by (simp add: of_nat_nat)
  have Nn: "of_nat N \<le> n" "n < of_nat N + 1" unfolding NN by linarith+
  have N23: "2 ^ 23 \<le> N"
  proof -
    have "(2 ^ 23 :: int) \<le> \<lfloor>n\<rfloor>" using n23 by (simp add: le_floor_iff)
    then have "nat (2 ^ 23) \<le> nat \<lfloor>n\<rfloor>" by (rule nat_mono)
    then show ?thesis unfolding N_def by simp
  qed
  obtain s where s: "2 ^ (23 + s) \<le> N" "N < 2 ^ (24 + s)"
  proof (cases "N < 2 ^ 24")
    case True
    then show ?thesis using N23 that[of 0] by simp
  next
    case False
    have Npos: "0 < N" using N23 by simp
    have b: "24 \<le> bit_len N"
    proof (rule ccontr)
      assume "\<not> 24 \<le> bit_len N"
      then have "bit_len N \<le> 24" by simp
      then have "(2::nat) ^ bit_len N \<le> 2 ^ 24" by (rule power_increasing) simp
      with bit_len_bounds[OF Npos] False show False by linarith
    qed
    have "2 ^ (23 + (bit_len N - 24)) \<le> N" "N < 2 ^ (24 + (bit_len N - 24))"
      using bit_len_bounds[OF Npos] b by (simp_all add: )
    then show ?thesis using that by blast
  qed
  have lo: "2 ^ (23 + s) \<le> \<bar>x\<bar> * 2 ^ 149"
  proof -
    have "(of_nat (2 ^ (23 + s)) :: rat) \<le> of_nat N" using s(1) by (simp only: of_nat_le_iff)
    then have "(2 ^ (23 + s) :: rat) \<le> of_nat N" by (simp only: of_nat_power of_nat_numeral)
    then have "2 ^ (23 + s) \<le> n" using Nn(1) by (rule order_trans)
    then show ?thesis using xpos by (simp add: n_def)
  qed
  have hi: "\<bar>x\<bar> * 2 ^ 149 < 2 ^ (24 + s)"
  proof -
    have "N + 1 \<le> 2 ^ (24 + s)" using s(2) by simp
    then have "(of_nat (N + 1) :: rat) \<le> of_nat (2 ^ (24 + s))" by (simp only: of_nat_le_iff)
    then have "(of_nat N + 1 :: rat) \<le> 2 ^ (24 + s)"
      by (simp only: of_nat_power of_nat_numeral of_nat_add of_nat_1)
    with Nn(2) have "n < 2 ^ (24 + s)" by (rule less_le_trans)
    then show ?thesis using xpos by (simp add: n_def)
  qed
  have r: "rnd x = of_int (rne (n / 2 ^ s)) * 2 ^ s / 2 ^ 149"
    using rnd_binade[OF lo hi] by (simp add: n_def)
  have e: "\<bar>of_int (rne (n / 2 ^ s)) - n / 2 ^ s\<bar> \<le> 1 / 2" by (rule rne_err)
  have "(of_int (rne (n / 2 ^ s)) - n / 2 ^ s) * 2 ^ s = of_int (rne (n / 2 ^ s)) * 2 ^ s - n"
    by (simp add: field_simps)
  then have "\<bar>of_int (rne (n / 2 ^ s)) * 2 ^ s - n\<bar> = \<bar>(of_int (rne (n / 2 ^ s)) - n / 2 ^ s) * 2 ^ s\<bar>"
    by simp
  also have "\<dots> = \<bar>of_int (rne (n / 2 ^ s)) - n / 2 ^ s\<bar> * 2 ^ s"
    by (simp add: abs_mult)
  also have "\<dots> \<le> 1 / 2 * 2 ^ s" using e by (simp add: mult_right_mono del: times_divide_eq_left)
  also have "\<dots> = 2 ^ (23 + s) / 2 ^ 24" by (simp add: power_add)
  also have "\<dots> \<le> n / 2 ^ 24" using lo xpos by (simp add: n_def divide_right_mono)
  finally have "\<bar>of_int (rne (n / 2 ^ s)) * 2 ^ s - n\<bar> \<le> n / 2 ^ 24" .
  note A = this
  define c :: rat where "c = 2 ^ 149"
  have cpos: "0 < c" unfolding c_def by simp
  define A :: rat where "A = of_int (rne (n / 2 ^ s)) * 2 ^ s"
  have rA: "rnd x = A / c" unfolding r A_def c_def ..
  have xn: "x = n / c" unfolding n_def c_def by simp
  have "rnd x - x = (A - n) / c" unfolding rA by (subst xn) (simp add: diff_divide_distrib)
  then have "\<bar>rnd x - x\<bar> = \<bar>A - n\<bar> / c" using cpos by (simp add: abs_divide)
  also have "\<dots> \<le> n / 2 ^ 24 / c"
    unfolding A_def by (rule divide_right_mono[OF A]) (use cpos in simp)
  also have "\<dots> = x / 2 ^ 24" by (subst xn) simp
  finally show ?thesis .
qed

subsection \<open>Evaluating a rounding\<close>

lemma floor_rat_numeral [simp]: "\<lfloor>numeral a / numeral b :: rat\<rfloor> = numeral a div numeral b"
  by (metis floor_divide_of_int_eq of_int_numeral)

lemma rnd_eval:
  assumes "2 ^ (23 + s) \<le> \<bar>x\<bar> * 2 ^ 149" "\<bar>x\<bar> * 2 ^ 149 < 2 ^ (24 + s)"
    and "2 * \<bar>x * 2 ^ 149 / 2 ^ s - of_int m\<bar> < 1"
  shows "rnd x = of_int m * 2 ^ s / 2 ^ 149"
  using rnd_binade[OF assms(1,2)] rne_near[OF assms(3)] by simp

lemma rnd_eval_tie:
  assumes "2 ^ (23 + s) \<le> \<bar>x\<bar> * 2 ^ 149" "\<bar>x\<bar> * 2 ^ 149 < 2 ^ (24 + s)"
    and "even m" "x * 2 ^ 149 / 2 ^ s = of_int m + 1 / 2 \<or> x * 2 ^ 149 / 2 ^ s = of_int m - 1 / 2"
  shows "rnd x = of_int m * 2 ^ s / 2 ^ 149"
  using rnd_binade[OF assms(1,2)] rne_tie[OF assms(3,4)] by simp

text \<open>The rounding on familiar values: a tenth, a third, and the two kinds of tie.\<close>

lemma rnd_examples:
  "rnd (1 / 10) = 13421773 / 134217728"
  "rnd (1 / 3) = 11184811 / 33554432"
  "rnd 16777217 = 16777216"
  "rnd 16777219 = 16777220"
  using rnd_eval[of 122 "1 / 10" 13421773]
        rnd_eval[of 124 "1 / 3" 11184811]
        rnd_eval_tie[of 150 16777217 8388608]
        rnd_eval_tie[of 150 16777219 8388610]
  by simp_all

text \<open>The crystal frequency is odd and needs 25 bits: its float is the even neighbour.\<close>

lemma rnd_xtal: "rnd 24999117 = 24999116"
  using rnd_eval_tie[of 150 24999117 12499558] by simp

lemma rnd_consts:
  "rnd 1048575 = 1048575"
  "rnd 128 = 128"
  using rnd_eval[of 145 "1048575" 16777200]
        rnd_eval[of 133 "128" 8388608]
  by simp_all

subsection \<open>The rounding error of the planner's three operations\<close>

lemma rnd_rel_bounds:
  assumes "1 / 2 ^ 126 \<le> x"
  shows "x - x / 16777216 \<le> rnd x" "rnd x \<le> x + x / 16777216"
proof -
  have "(2::rat) ^ 24 = 16777216" by simp
  with rnd_rel_err[OF assms] have "\<bar>rnd x - x\<bar> \<le> x / 16777216" by (simp only:)
  then have "x - x / 16777216 \<le> rnd x \<and> rnd x \<le> x + x / 16777216"
    by (simp only: abs_diff_le_iff)
  then show "x - x / 16777216 \<le> rnd x" "rnd x \<le> x + x / 16777216" by blast+
qed

lemma chain_bounds:
  fixes r :: rat
  assumes r: "1 \<le> r" "r \<le> 24999116"
  defines "f0 \<equiv> rnd r"
  defines "f1 \<equiv> rnd (f0 * 1048575)"
  defines "f2 \<equiv> rnd (f1 / 24999116)"
  shows "0 < f1 \<and> f1 < 2 ^ 128 \<and> 0 \<le> f2 \<and> f2 < 1048576 \<and> \<bar>f2 - r * 1048575 / 24999117\<bar> < 1"
proof -
  have "1 / 2 ^ 126 \<le> r" using r(1) by simp
  note e0 = rnd_rel_bounds[OF this, folded f0_def]
  have "1 / 1000 \<le> f0 * 1048575" using e0 r by linarith
  then have "1 / 2 ^ 126 \<le> f0 * 1048575" by simp
  note e1 = rnd_rel_bounds[OF this, folded f1_def]
  have "1 / 1000 \<le> f1 / 24999116" using e0 e1 r by linarith
  then have "1 / 2 ^ 126 \<le> f1 / 24999116" by simp
  note e2 = rnd_rel_bounds[OF this, folded f2_def]
  have a: "0 < f1" using e0 e1 r by linarith
  have "f1 < 2 ^ 50" using e0 e1 r by simp
  then have b: "f1 < 2 ^ 128" by simp
  have c: "0 \<le> f2" using e0 e1 e2 r by linarith
  have d: "f2 < 1048576" using e0 e1 e2 r by linarith
  have "f2 - r * 1048575 / 24999117 < 1" "r * 1048575 / 24999117 - f2 < 1"
    using e0 e1 e2 r by linarith+
  then have e: "\<bar>f2 - r * 1048575 / 24999117\<bar> < 1" by (simp add: abs_less_iff)
  from a b c d e show ?thesis by blast
qed

section \<open>Every call returns\<close>

lemma reg_writes_sendRegister [simp]:
  "reg_writes (sendRegister r v @ bus) = (r, v) # reg_writes bus"
  by (simp add: sendRegister_def)

lemma ulong_of_float_floor:
  assumes "0 \<le> f" "f < 4294967296"
  shows "ulong_of_float f = Some (word_of_int \<lfloor>f\<rfloor>)" "unat (word_of_int \<lfloor>f\<rfloor> :: 32 word) = nat \<lfloor>f\<rfloor>"
proof -
  have fl: "0 \<le> \<lfloor>f\<rfloor>" "\<lfloor>f\<rfloor> < 4294967296" using assms by (simp_all add: floor_less_iff)
  show "ulong_of_float f = Some (word_of_int \<lfloor>f\<rfloor>)"
    using assms fl by (simp add: ulong_of_float_def Let_def)
  have "uint (word_of_int \<lfloor>f\<rfloor> :: 32 word) = \<lfloor>f\<rfloor>"
    using fl by (simp add: uint_word_of_int)
  then show "unat (word_of_int \<lfloor>f\<rfloor> :: 32 word) = nat \<lfloor>f\<rfloor>"
    by (simp add: unat_eq_nat_uint)
qed

lemma float_of_xtal: "float_of_ulong Si5351A_XTAL_FREQ = 24999116"
  by (simp add: float_of_ulong_def Si5351A_XTAL_FREQ_def rnd_xtal)

lemma num_chain:
  fixes l :: "32 word"
  assumes l: "unat l < 24999117"
  shows "\<exists>f1 f2 num. fmul (float_of_ulong l) (float_of_int 1048575) = Some f1
               \<and> fdiv f1 (float_of_ulong Si5351A_XTAL_FREQ) = Some f2
               \<and> ulong_of_float f2 = Some num
               \<and> unat num \<le> 1048575
               \<and> \<bar>int (unat num) - int (unat l * 1048575 div 24999117)\<bar> \<le> 1"
proof (cases "unat l = 0")
  case True
  then have "float_of_ulong l = 0" by (simp add: float_of_ulong_def)
  then show ?thesis using True
    by (simp add: float_of_int_def fmul_def fdiv_def finite_float_def
        ulong_of_float_def rnd_consts float_of_xtal)
next
  case False
  define r :: rat where "r = of_nat (unat l)"
  have r: "1 \<le> r" "r \<le> 24999116"
  proof -
    have "1 \<le> unat l" using False by simp
    then show "1 \<le> r" unfolding r_def by (metis of_nat_1 of_nat_le_iff)
    have "unat l \<le> 24999116" using l by simp
    then have "(of_nat (unat l) :: rat) \<le> of_nat 24999116" by (simp only: of_nat_le_iff)
    then show "r \<le> 24999116" unfolding r_def by simp
  qed
  define f0 where "f0 = rnd r"
  define f1 where "f1 = rnd (f0 * 1048575)"
  define f2 where "f2 = rnd (f1 / 24999116)"
  from chain_bounds[OF r] have b: "0 < f1" "f1 < 2 ^ 128" "0 \<le> f2" "f2 < 1048576"
    "\<bar>f2 - r * 1048575 / 24999117\<bar> < 1"
    unfolding f0_def f1_def f2_def by blast+
  have m: "fmul (float_of_ulong l) (float_of_int 1048575) = Some f1"
    using b(1,2) by (simp add: fmul_def float_of_ulong_def float_of_int_def rnd_consts
        finite_float_def f1_def f0_def r_def)
  have d: "fdiv f1 (float_of_ulong Si5351A_XTAL_FREQ) = Some f2"
    using b(3,4) by (simp add: fdiv_def float_of_xtal finite_float_def f2_def)
  have "f2 < 4294967296" using b(4) by simp
  note u = ulong_of_float_floor[OF b(3) this]
  have fl: "of_int \<lfloor>f2\<rfloor> \<le> f2" "f2 < of_int \<lfloor>f2\<rfloor> + 1" by linarith+
  define E where "E = unat l * 1048575 div 24999117"
  have "\<lfloor>(of_nat (unat l * 1048575) :: rat) / of_nat 24999117\<rfloor> = int E"
    unfolding E_def by (rule floor_divide_of_nat_eq)
  then have E: "\<lfloor>r * 1048575 / 24999117\<rfloor> = int E" by (simp add: r_def)
  define y where "y = r * 1048575 / 24999117"
  have yl: "of_int (int E) \<le> y" "y < of_int (int E) + 1"
    unfolding y_def E[symmetric] by linarith+
  have "f2 - y < 1" "y - f2 < 1" using b(5) unfolding y_def by (simp_all add: abs_less_iff)
  then have "(of_int \<lfloor>f2\<rfloor> :: rat) < of_int (int E) + 2" "(of_int (int E) :: rat) < of_int \<lfloor>f2\<rfloor> + 2"
    using fl yl by linarith+
  then have "(of_int \<lfloor>f2\<rfloor> :: rat) < of_int (int E + 2)" "(of_int (int E) :: rat) < of_int (\<lfloor>f2\<rfloor> + 2)"
    by simp_all
  then have c1: "\<lfloor>f2\<rfloor> < int E + 2" "int E < \<lfloor>f2\<rfloor> + 2" by (simp_all only: of_int_less_iff)
  have c2: "\<lfloor>f2\<rfloor> < 1048576" using b(4) by (simp add: floor_less_iff)
  have c3: "0 \<le> \<lfloor>f2\<rfloor>" using b(3) by simp
  have p1: "unat (word_of_int \<lfloor>f2\<rfloor> :: 32 word) \<le> 1048575"
    unfolding u(2) using c2 c3 by linarith
  have p2: "\<bar>int (unat (word_of_int \<lfloor>f2\<rfloor> :: 32 word)) - int E\<bar> \<le> 1"
    unfolding u(2) using c1 c3 by linarith
  show ?thesis unfolding E_def[symmetric] using m d u(1) p1 p2 by blast
qed

lemma assign_divider_eq:
  "assign_divider frequency = Some (if frequency \<le> 9050000 then 124 else 44)"
  unfolding assign_divider_def Let_def
  by (auto simp: word_le_nat_alt word_less_nat_alt)

lemma locals_total:
  fixes frequency :: "32 word"
  defines "d \<equiv> (if frequency \<le> 9050000 then 124 else 44 :: 16 word)"
  shows "\<exists>num. si5351aSetFrequency_locals frequency =
            Some \<lparr>sf_divider = d, sf_pllFreq = ucast d * frequency,
                  sf_mult = ucast (ucast d * frequency div Si5351A_XTAL_FREQ),
                  sf_l = ucast d * frequency mod Si5351A_XTAL_FREQ,
                  sf_num = num, sf_denom = 1048575\<rparr>
          \<and> unat num \<le> 1048575
          \<and> \<bar>int (unat num)
               - int (unat (ucast d * frequency mod Si5351A_XTAL_FREQ) * 1048575 div 24999117)\<bar> \<le> 1"
proof -
  define l where "l = ucast d * frequency mod Si5351A_XTAL_FREQ"
  have "unat l < 24999117"
    unfolding l_def by (simp add: unat_mod Si5351A_XTAL_FREQ_def)
  from num_chain[OF this] obtain f1 f2 num where
    c: "fmul (float_of_ulong l) (float_of_int 1048575) = Some f1"
       "fdiv f1 (float_of_ulong Si5351A_XTAL_FREQ) = Some f2"
       "ulong_of_float f2 = Some num"
       "unat num \<le> 1048575"
       "\<bar>int (unat num) - int (unat l * 1048575 div 24999117)\<bar> \<le> 1"
    by blast
  have "si5351aSetFrequency_locals frequency =
            Some \<lparr>sf_divider = d, sf_pllFreq = ucast d * frequency,
                  sf_mult = ucast (ucast d * frequency div Si5351A_XTAL_FREQ),
                  sf_l = l, sf_num = num, sf_denom = 1048575\<rparr>"
    unfolding si5351aSetFrequency_locals_def assign_divider_eq d_def[symmetric]
    by (simp add: Let_def l_def[symmetric] c)
  then show ?thesis using c(4,5) unfolding l_def by blast
qed



lemma pll_floor_chain:
  fixes num :: "32 word"
  assumes n: "unat num \<le> 1048575"
  shows "\<exists>q f P. fdiv (float_of_ulong num) (float_of_ulong 1048575) = Some q
               \<and> fmul (float_of_int 128) q = Some f
               \<and> ulong_of_float f = Some P"
proof (cases "unat num = 0")
  case True
  then have "float_of_ulong num = 0" by (simp add: float_of_ulong_def)
  then show ?thesis
    by (simp add: float_of_ulong_def float_of_int_def fmul_def fdiv_def finite_float_def
        ulong_of_float_def rnd_consts)
next
  case False
  define r :: rat where "r = of_nat (unat num)"
  have r: "1 \<le> r" "r \<le> 1048575"
  proof -
    have "1 \<le> unat num" using False by simp
    then show "1 \<le> r" unfolding r_def by (metis of_nat_1 of_nat_le_iff)
    have "(of_nat (unat num) :: rat) \<le> of_nat 1048575" using n by (simp only: of_nat_le_iff)
    then show "r \<le> 1048575" unfolding r_def by simp
  qed
  define a where "a = rnd r"
  define q where "q = rnd (a / 1048575)"
  define f where "f = rnd (128 * q)"
  have "1 / 2 ^ 126 \<le> r" using r(1) by simp
  note e0 = rnd_rel_bounds[OF this, folded a_def]
  have "1 / 2 ^ 30 \<le> a / 1048575" using e0 r by simp
  then have "1 / 2 ^ 126 \<le> a / 1048575" by simp
  note e1 = rnd_rel_bounds[OF this, folded q_def]
  have "1 / 2 ^ 30 \<le> 128 * q" using e0 e1 r by simp
  then have "1 / 2 ^ 126 \<le> 128 * q" by simp
  note e2 = rnd_rel_bounds[OF this, folded f_def]
  have ab: "0 < a" "a \<le> 1048576" using e0 r by linarith+
  have qb: "0 \<le> q" "q < 2" using e1 ab by simp_all
  have fb: "0 \<le> f" "f < 4294967296" using e2 qb by simp_all
  have 1: "fdiv (float_of_ulong num) (float_of_ulong 1048575) = Some q"
    using qb by (simp add: fdiv_def float_of_ulong_def rnd_consts finite_float_def
        q_def a_def r_def)
  have 2: "fmul (float_of_int 128) q = Some f"
    using fb by (simp add: fmul_def float_of_int_def rnd_consts finite_float_def f_def)
  from 1 2 ulong_of_float_floor(1)[OF fb] show ?thesis by blast
qed

lemma setupPLL_total:
  fixes num :: "32 word"
  assumes n: "unat num \<le> 1048575"
  shows "\<exists>(P1 :: 32 word) (P2 :: 32 word). setupPLL pll mult num 1048575 =
     Some (sendRegister (pll + 0) 255
         @ sendRegister (pll + 1) 255
         @ sendRegister (pll + 2) (ucast (drop_bit 16 (P1 AND 0x00030000)))
         @ sendRegister (pll + 3) (ucast (drop_bit 8 (P1 AND 0x0000FF00)))
         @ sendRegister (pll + 4) (ucast (P1 AND 0x000000FF))
         @ sendRegister (pll + 5) (ucast (240 OR drop_bit 16 (P2 AND 0x000F0000)))
         @ sendRegister (pll + 6) (ucast (drop_bit 8 (P2 AND 0x0000FF00)))
         @ sendRegister (pll + 7) (ucast (P2 AND 0x000000FF)))"
proof -
  from pll_floor_chain[OF n] obtain q f P where
    c: "fdiv (float_of_ulong num) (float_of_ulong 1048575) = Some q"
       "fmul (float_of_int 128) q = Some f" "ulong_of_float f = Some P"
    by blast
  define P1 where "P1 = 128 * ucast mult + P - 512"
  define P2 where "P2 = 128 * num - 1048575 * P"
  have "setupPLL pll mult num 1048575 =
     Some (sendRegister (pll + 0) 255
         @ sendRegister (pll + 1) 255
         @ sendRegister (pll + 2) (ucast (drop_bit 16 (P1 AND 0x00030000)))
         @ sendRegister (pll + 3) (ucast (drop_bit 8 (P1 AND 0x0000FF00)))
         @ sendRegister (pll + 4) (ucast (P1 AND 0x000000FF))
         @ sendRegister (pll + 5) (ucast (240 OR drop_bit 16 (P2 AND 0x000F0000)))
         @ sendRegister (pll + 6) (ucast (drop_bit 8 (P2 AND 0x0000FF00)))
         @ sendRegister (pll + 7) (ucast (P2 AND 0x000000FF)))"
    unfolding P1_def P2_def by (simp add: setupPLL_def c Let_def)
  then show ?thesis by blast
qed

section \<open>Calls at given frequencies\<close>

text \<open>
  The float operations of a call at a given frequency, each evaluated by exhibiting the
  binade of the exact result and its nearest significand.
\<close>

lemma rnd_7100000:
  "rnd 5430905 = 5430905"
  "rnd 5694711210375 = 5694711398400"
  "rnd (1423677849600 / 6249779) = 14578977 / 64"
  "rnd (1852 / 8525) = 7289479 / 33554432"
  "rnd (7289479 / 262144) = 7289479 / 262144"
  "rnd 227796 = 227796"
  using rnd_eval[of 148 "5430905" 10861810]
        rnd_eval[of 168 "5694711210375" 10861800]
        rnd_eval[of 143 "1423677849600 / 6249779" 14578977]
        rnd_eval[of 123 "1852 / 8525" 14578958]
        rnd_eval[of 130 "7289479 / 262144" 14578958]
        rnd_eval[of 143 "227796" 14578944]
  by simp_all

lemma rnd_7100010:
  "rnd 5432145 = 5432145"
  "rnd 5696011443375 = 5696011632640"
  "rnd (1424002908160 / 6249779) = 14582305 / 64"
  "rnd (227848 / 1048575) = 7291143 / 33554432"
  "rnd (7291143 / 262144) = 7291143 / 262144"
  "rnd 227848 = 227848"
  using rnd_eval[of 148 "5432145" 10864290]
        rnd_eval[of 168 "5696011443375" 10864280]
        rnd_eval[of 143 "1424002908160 / 6249779" 14582305]
        rnd_eval[of 123 "227848 / 1048575" 14582286]
        rnd_eval[of 130 "7291143 / 262144" 14582286]
        rnd_eval[of 143 "227848" 14582272]
  by simp_all

lemma rnd_3500025:
  "rnd 9018111 = 9018111"
  "rnd 9456165741825 = 9456165322752"
  "rnd (2364041330688 / 6249779) = 378260"
  "rnd (75652 / 209715) = 3026083 / 8388608"
  "rnd (3026083 / 65536) = 3026083 / 65536"
  "rnd 378260 = 378260"
  using rnd_eval[of 149 "9018111" 9018111]
        rnd_eval[of 169 "9456165741825" 9018102]
        rnd_eval[of 144 "2364041330688 / 6249779" 12104320]
        rnd_eval[of 124 "75652 / 209715" 12104332]
        rnd_eval[of 131 "3026083 / 65536" 12104332]
        rnd_eval[of 144 "378260" 12104320]
  by simp_all

lemma rnd_14199605:
  "rnd 24803812 = 24803812"
  "rnd 26008657167900 = 26008656805888"
  "rnd (6502164201472 / 6249779) = 16646129 / 16"
  "rnd (1040383 / 1048575) = 127 / 128"
  "rnd 127 = 127"
  "rnd 1040383 = 1040383"
  using rnd_eval[of 150 "24803812" 12401906]
        rnd_eval[of 170 "26008657167900" 12401894]
        rnd_eval[of 145 "6502164201472 / 6249779" 16646129]
        rnd_eval[of 125 "1040383 / 1048575" 16646144]
        rnd_eval[of 132 "127" 16646144]
        rnd_eval[of 145 "1040383" 16646128]
  by simp_all


lemma reg_writes_sendRegister_last [simp]: "reg_writes (sendRegister r v) = [(r, v)]"
  by (simp add: sendRegister_def)

lemmas float_ops = float_of_ulong_def float_of_int_def fmul_def fdiv_def finite_float_def
  ulong_of_float_def rnd_xtal rnd_consts Let_def

lemma locals_7100000:
  "si5351aSetFrequency_locals 7100000 =
     Some \<lparr>sf_divider = 124, sf_pllFreq = 880400000, sf_mult = 35, sf_l = 5430905,
           sf_num = 227796, sf_denom = 1048575\<rparr>"
  by (simp add: si5351aSetFrequency_locals_def assign_divider_def Si5351A_XTAL_FREQ_def
      float_ops rnd_7100000)

lemma locals_7100010:
  "si5351aSetFrequency_locals 7100010 =
     Some \<lparr>sf_divider = 124, sf_pllFreq = 880401240, sf_mult = 35, sf_l = 5432145,
           sf_num = 227848, sf_denom = 1048575\<rparr>"
  by (simp add: si5351aSetFrequency_locals_def assign_divider_def Si5351A_XTAL_FREQ_def
      float_ops rnd_7100010)

lemma locals_3500025:
  "si5351aSetFrequency_locals 3500025 =
     Some \<lparr>sf_divider = 124, sf_pllFreq = 434003100, sf_mult = 17, sf_l = 9018111,
           sf_num = 378260, sf_denom = 1048575\<rparr>"
  by (simp add: si5351aSetFrequency_locals_def assign_divider_def Si5351A_XTAL_FREQ_def
      float_ops rnd_3500025)

lemma locals_14199605:
  "si5351aSetFrequency_locals 14199605 =
     Some \<lparr>sf_divider = 44, sf_pllFreq = 624782620, sf_mult = 24, sf_l = 24803812,
           sf_num = 1040383, sf_denom = 1048575\<rparr>"
  by (simp add: si5351aSetFrequency_locals_def assign_divider_def Si5351A_XTAL_FREQ_def
      float_ops rnd_14199605)

lemma setupPLL_7100000:
  "setupPLL 26 35 227796 1048575 =
     Some (sendRegister 26 255 @ sendRegister 27 255 @ sendRegister 28 0 @ sendRegister 29 15
         @ sendRegister 30 155 @ sendRegister 31 252 @ sendRegister 32 234 @ sendRegister 33 27)"
  by (simp add: setupPLL_def float_ops rnd_7100000)

lemma setupPLL_7100010:
  "setupPLL 26 35 227848 1048575 =
     Some (sendRegister 26 255 @ sendRegister 27 255 @ sendRegister 28 0 @ sendRegister 29 15
         @ sendRegister 30 155 @ sendRegister 31 253 @ sendRegister 32 4 @ sendRegister 33 27)"
  by (simp add: setupPLL_def float_ops rnd_7100010)

lemma setupPLL_14199605:
  "setupPLL 26 24 1040383 1048575 =
     Some (sendRegister 26 255 @ sendRegister 27 255 @ sendRegister 28 0 @ sendRegister 29 10
         @ sendRegister 30 127 @ sendRegister 31 255 @ sendRegister 32 255 @ sendRegister 33 255)"
  by (simp add: setupPLL_def float_ops rnd_14199605 mask_eq_exp_minus_1)

lemma setupMultisynth_124:
  "setupMultisynth synth 124 0 =
     sendRegister (synth + 0) 0 @ sendRegister (synth + 1) 1 @ sendRegister (synth + 2) 0
   @ sendRegister (synth + 3) 60 @ sendRegister (synth + 4) 0 @ sendRegister (synth + 5) 0
   @ sendRegister (synth + 6) 0 @ sendRegister (synth + 7) 0"
  by (simp add: setupMultisynth_def)

lemma setupMultisynth_44:
  "setupMultisynth synth 44 0 =
     sendRegister (synth + 0) 0 @ sendRegister (synth + 1) 1 @ sendRegister (synth + 2) 0
   @ sendRegister (synth + 3) 20 @ sendRegister (synth + 4) 0 @ sendRegister (synth + 5) 0
   @ sendRegister (synth + 6) 0 @ sendRegister (synth + 7) 0"
  by (simp add: setupMultisynth_def)

lemmas reg_consts = SI_SYNTH_PLL_A_def SI_SYNTH_MS_0_def SI_SYNTH_MS_1_def SI_R_DIV_1_def
  CLK0_PHOFF_def CLK1_PHOFF_def

lemma setFrequency_7100000:
  "map_option reg_writes (si5351aSetFrequency 7100000) =
     Some [(26, 255), (27, 255), (28, 0), (29, 15), (30, 155), (31, 252), (32, 234), (33, 27),
           (42, 0), (43, 1), (44, 0), (45, 60), (46, 0), (47, 0), (48, 0), (49, 0),
           (50, 0), (51, 1), (52, 0), (53, 60), (54, 0), (55, 0), (56, 0), (57, 0),
           (165, 124), (166, 0)]"
  by (simp add: si5351aSetFrequency_def locals_7100000 reg_consts setupPLL_7100000
      setupMultisynth_124)

lemma setFrequency_total:
  fixes frequency :: "32 word"
  defines "d \<equiv> (if frequency \<le> 9050000 then 124 else 44 :: 16 word)"
  shows "\<exists>(b2 :: 8 word) (b3 :: 8 word) (b4 :: 8 word) (b5 :: 8 word) (b6 :: 8 word) (b7 :: 8 word).
     si5351aSetFrequency frequency =
     Some (sendRegister 26 255 @ sendRegister 27 255 @ sendRegister 28 b2 @ sendRegister 29 b3
         @ sendRegister 30 b4 @ sendRegister 31 b5 @ sendRegister 32 b6 @ sendRegister 33 b7
         @ setupMultisynth 42 (ucast d) 0
         @ setupMultisynth 50 (ucast d) 0
         @ sendRegister 165 (ucast d)
         @ sendRegister 166 0)"
proof -
  from locals_total[of frequency] obtain num where
    v: "si5351aSetFrequency_locals frequency =
            Some \<lparr>sf_divider = d, sf_pllFreq = ucast d * frequency,
                  sf_mult = ucast (ucast d * frequency div Si5351A_XTAL_FREQ),
                  sf_l = ucast d * frequency mod Si5351A_XTAL_FREQ,
                  sf_num = num, sf_denom = 1048575\<rparr>"
    and n: "unat num \<le> 1048575"
    unfolding d_def by blast
  from setupPLL_total[OF n, of 26 "ucast (ucast d * frequency div Si5351A_XTAL_FREQ)"]
  obtain P1 P2 :: "32 word" where
    p: "setupPLL 26 (ucast (ucast d * frequency div Si5351A_XTAL_FREQ)) num 1048575 =
     Some (sendRegister (26 + 0) 255
         @ sendRegister (26 + 1) 255
         @ sendRegister (26 + 2) (ucast (drop_bit 16 (P1 AND 0x00030000)))
         @ sendRegister (26 + 3) (ucast (drop_bit 8 (P1 AND 0x0000FF00)))
         @ sendRegister (26 + 4) (ucast (P1 AND 0x000000FF))
         @ sendRegister (26 + 5) (ucast (240 OR drop_bit 16 (P2 AND 0x000F0000)))
         @ sendRegister (26 + 6) (ucast (drop_bit 8 (P2 AND 0x0000FF00)))
         @ sendRegister (26 + 7) (ucast (P2 AND 0x000000FF)))"
    by blast
  have "si5351aSetFrequency frequency =
     Some (sendRegister 26 255 @ sendRegister 27 255
         @ sendRegister 28 (ucast (drop_bit 16 (P1 AND 0x00030000)))
         @ sendRegister 29 (ucast (drop_bit 8 (P1 AND 0x0000FF00)))
         @ sendRegister 30 (ucast (P1 AND 0x000000FF))
         @ sendRegister 31 (ucast (240 OR drop_bit 16 (P2 AND 0x000F0000)))
         @ sendRegister 32 (ucast (drop_bit 8 (P2 AND 0x0000FF00)))
         @ sendRegister 33 (ucast (P2 AND 0x000000FF))
         @ setupMultisynth 42 (ucast d) 0
         @ setupMultisynth 50 (ucast d) 0
         @ sendRegister 165 (ucast d)
         @ sendRegister 166 0)"
    unfolding si5351aSetFrequency_def v by (simp add: reg_consts p)
  then show ?thesis by blast
qed

lemma setFrequency_writes:
  fixes frequency :: "32 word"
  shows "\<exists>(b2 :: 8 word) (b3 :: 8 word) (b4 :: 8 word) (b5 :: 8 word) (b6 :: 8 word) (b7 :: 8 word) t.
     si5351aSetFrequency frequency = Some t \<and>
     reg_writes t =
       [(26, 255), (27, 255), (28, b2), (29, b3), (30, b4), (31, b5), (32, b6), (33, b7),
        (42, 0), (43, 1), (44, 0), (45, if frequency \<le> 9050000 then 60 else 20),
        (46, 0), (47, 0), (48, 0), (49, 0),
        (50, 0), (51, 1), (52, 0), (53, if frequency \<le> 9050000 then 60 else 20),
        (54, 0), (55, 0), (56, 0), (57, 0),
        (165, if frequency \<le> 9050000 then 124 else 44), (166, 0)]"
proof -
  from setFrequency_total[of frequency] obtain b2 b3 b4 b5 b6 b7 :: "8 word" where
    t: "si5351aSetFrequency frequency =
     Some (sendRegister 26 255 @ sendRegister 27 255 @ sendRegister 28 b2 @ sendRegister 29 b3
         @ sendRegister 30 b4 @ sendRegister 31 b5 @ sendRegister 32 b6 @ sendRegister 33 b7
         @ setupMultisynth 42 (ucast (if frequency \<le> 9050000 then 124 else 44 :: 16 word)) 0
         @ setupMultisynth 50 (ucast (if frequency \<le> 9050000 then 124 else 44 :: 16 word)) 0
         @ sendRegister 165 (ucast (if frequency \<le> 9050000 then 124 else 44 :: 16 word))
         @ sendRegister 166 0)"
    by blast
  show ?thesis
    unfolding t by (cases "frequency \<le> 9050000")
      (simp_all add: setupMultisynth_124 setupMultisynth_44)
qed

lemma setFrequency_7100010:
  "map_option reg_writes (si5351aSetFrequency 7100010) =
     Some [(26, 255), (27, 255), (28, 0), (29, 15), (30, 155), (31, 253), (32, 4), (33, 27),
           (42, 0), (43, 1), (44, 0), (45, 60), (46, 0), (47, 0), (48, 0), (49, 0),
           (50, 0), (51, 1), (52, 0), (53, 60), (54, 0), (55, 0), (56, 0), (57, 0),
           (165, 124), (166, 0)]"
  by (simp add: si5351aSetFrequency_def locals_7100010 reg_consts setupPLL_7100010
      setupMultisynth_124)

lemma mult_range:
  fixes frequency :: "32 word"
  assumes "3500000 \<le> frequency" "frequency \<le> 30000000"
  defines "d \<equiv> (if frequency \<le> 9050000 then 124 else 44 :: 16 word)"
  shows "15 \<le> unat (ucast (ucast d * frequency div Si5351A_XTAL_FREQ) :: 8 word)"
    and "unat (ucast (ucast d * frequency div Si5351A_XTAL_FREQ) :: 8 word) \<le> 52"
proof -
  define n where "n = unat frequency"
  have n: "3500000 \<le> n" "n \<le> 30000000"
    using assms(1,2) unfolding n_def word_le_nat_alt by simp_all
  have "15 \<le> unat (ucast (ucast d * frequency div Si5351A_XTAL_FREQ) :: 8 word)
      \<and> unat (ucast (ucast d * frequency div Si5351A_XTAL_FREQ) :: 8 word) \<le> 52"
  proof (cases "frequency \<le> 9050000")
    case True
    then have n2: "n \<le> 9050000" unfolding n_def word_le_nat_alt by simp
    have d: "(ucast d :: 32 word) = 124" using True by (simp add: d_def)
    have m: "unat (124 * frequency) = 124 * n"
      using n2 by (simp add: unat_word_ariths n_def)
    have q: "unat (124 * frequency div Si5351A_XTAL_FREQ) = 124 * n div 24999117"
      by (simp add: unat_div m Si5351A_XTAL_FREQ_def)
    have b: "15 \<le> 124 * n div 24999117" "124 * n div 24999117 \<le> 52" using n n2 by linarith+
    have "unat (ucast (124 * frequency div Si5351A_XTAL_FREQ) :: 8 word)
          = take_bit 8 (124 * n div 24999117)"
      by (simp add: unsigned_ucast_eq q)
    also have "\<dots> = 124 * n div 24999117"
      using b by (simp add: take_bit_nat_eq_self)
    finally show ?thesis unfolding d using b by simp
  next
    case False
    then have n2: "9050000 < n" unfolding n_def word_le_nat_alt by simp
    have d: "(ucast d :: 32 word) = 44" using False by (simp add: d_def)
    have m: "unat (44 * frequency) = 44 * n"
      using n by (simp add: unat_word_ariths n_def)
    have q: "unat (44 * frequency div Si5351A_XTAL_FREQ) = 44 * n div 24999117"
      by (simp add: unat_div m Si5351A_XTAL_FREQ_def)
    have b: "15 \<le> 44 * n div 24999117" "44 * n div 24999117 \<le> 52" using n n2 by linarith+
    have "unat (ucast (44 * frequency div Si5351A_XTAL_FREQ) :: 8 word)
          = take_bit 8 (44 * n div 24999117)"
      by (simp add: unsigned_ucast_eq q)
    also have "\<dots> = 44 * n div 24999117"
      using b by (simp add: take_bit_nat_eq_self)
    finally show ?thesis unfolding d using b by simp
  qed
  then show "15 \<le> unat (ucast (ucast d * frequency div Si5351A_XTAL_FREQ) :: 8 word)"
    and "unat (ucast (ucast d * frequency div Si5351A_XTAL_FREQ) :: 8 word) \<le> 52" by blast+
qed

lemma pll_packer_in_range:
  "map_option (unpack_frame \<circ> map snd \<circ> reg_writes)
     (setupPLL SI_SYNTH_PLL_A 35 227796 1048575) = Some (Some (3995, 846363, 1048575))
   \<and> spec_P1 35 227796 1048575 = 3995
   \<and> spec_P2 227796 1048575 = 846363"
  by (simp add: reg_consts setupPLL_7100000 unpack_frame_def spec_P1_def spec_P2_def)

section \<open>The claims\<close>

text \<open>
  C1: for every frequency the planner selects the divider 124 when the frequency is at most
  9,050,000 Hz and 44 when it is above; the boundary 9,050,000 takes 124.
\<close>

theorem band_selection:
  "map_option sf_divider (si5351aSetFrequency_locals frequency) =
     Some (if frequency \<le> 9050000 then 124 else 44)"
  using locals_total[of frequency] by auto

text \<open>C1 at the boundary and next to it (scenarios S3 and S4).\<close>

theorem band_selection_witness:
  "map_option sf_divider (si5351aSetFrequency_locals 9050000) = Some 124
   \<and> map_option sf_divider (si5351aSetFrequency_locals 9050001) = Some 44"
  using band_selection[of 9050000] band_selection[of 9050001] by simp

text \<open>
  C2 as stated fails: at 3,500,025 Hz the remainder is 9,018,111 and the exact floor of
  \<open>9018111 \<times> 1048575 / 24999117\<close> is 378,259, but the three single-precision operations
  of lines 24 to 27 give exactly 378,260.
\<close>

theorem num_exact_floor_counterexample:
  "map_option sf_l (si5351aSetFrequency_locals 3500025) = Some 9018111
   \<and> map_option sf_num (si5351aSetFrequency_locals 3500025) = Some 378260
   \<and> spec_num 9018111 = 378259"
  by (simp add: locals_3500025 spec_num_def Si5351A_XTAL_FREQ_def)

text \<open>
  C2 as amended: for every frequency, with \<open>pllFreq = divider \<times> F\<close> (in 32 bits) and the
  remainder \<open>pllFreq mod xtalFreq\<close>, the denominator is 1048575 and the numerator that the
  single-precision computation yields differs from the exact floor by at most one.
\<close>

theorem num_within_one:
  "\<exists>v. si5351aSetFrequency_locals frequency = Some v
       \<and> sf_pllFreq v = ucast (sf_divider v) * frequency
       \<and> sf_l v = sf_pllFreq v mod Si5351A_XTAL_FREQ
       \<and> sf_denom v = 1048575
       \<and> \<bar>int (unat (sf_num v)) - int (spec_num (sf_l v))\<bar> \<le> 1"
proof -
  from locals_total[of frequency] obtain v where
    "si5351aSetFrequency_locals frequency = Some v"
    "sf_pllFreq v = ucast (sf_divider v) * frequency"
    "sf_l v = sf_pllFreq v mod Si5351A_XTAL_FREQ"
    "sf_denom v = 1048575"
    "\<bar>int (unat (sf_num v)) - int (unat (sf_l v) * 1048575 div 24999117)\<bar> \<le> 1"
    by fastforce
  then show ?thesis
    unfolding spec_num_def by (auto simp: Si5351A_XTAL_FREQ_def)
qed

text \<open>C2 as amended, at 3,500,025 Hz, where the difference is one.\<close>

theorem num_within_one_witness:
  "\<exists>v. si5351aSetFrequency_locals 3500025 = Some v
       \<and> sf_l v = 9018111 \<and> sf_num v = 378260 \<and> spec_num (sf_l v) = 378259
       \<and> \<bar>int (unat (sf_num v)) - int (spec_num (sf_l v))\<bar> \<le> 1"
  using num_within_one[of 3500025]
  by (simp add: locals_3500025 spec_num_def Si5351A_XTAL_FREQ_def)

text \<open>
  C3: the round trip of the PLL packer fails at \<open>mult = 24\<close>, \<open>num = 1040383\<close>, the
  arguments of the call at 14,199,605 Hz.  The quotient \<open>1040383 / 1048575\<close> lies within
  half a unit in the last place below \<open>127 / 128\<close> and rounds to it, so line 41 obtains 127
  where the floor of \<open>128 \<times> num / denom\<close> is 126; line 44 then wraps below zero.  The
  frame carries \<open>P1 = 2687\<close> and \<open>P2 = 1048575\<close> instead of 2686 and 1048574.
\<close>

theorem pll_packer_rounding:
  "map_option (unpack_frame \<circ> map snd \<circ> reg_writes)
     (setupPLL SI_SYNTH_PLL_A 24 1040383 1048575) = Some (Some (2687, 1048575, 1048575))
   \<and> spec_P1 24 1040383 1048575 = 2686
   \<and> spec_P2 1040383 1048575 = 1048574
   \<and> map_option sf_mult (si5351aSetFrequency_locals 14199605) = Some 24
   \<and> map_option sf_num (si5351aSetFrequency_locals 14199605) = Some 1040383
   \<and> map_option sf_denom (si5351aSetFrequency_locals 14199605) = Some 1048575"
  by (simp add: reg_consts setupPLL_14199605 unpack_frame_def spec_P1_def spec_P2_def
      locals_14199605)

text \<open>
  C4: every call writes the selected divider to register 165 and 0 to register 166, each once,
  and bit 7 of the byte for register 165 is clear.
\<close>

theorem phase_offset_writes:
  "\<exists>t. si5351aSetFrequency frequency = Some t
       \<and> writes_to CLK0_PHOFF CLK0_PHOFF t
           = [(CLK0_PHOFF, if frequency \<le> 9050000 then 124 else 44)]
       \<and> writes_to CLK1_PHOFF CLK1_PHOFF t = [(CLK1_PHOFF, 0)]
       \<and> \<not> bit (if frequency \<le> 9050000 then 124 else 44 :: 8 word) 7"
proof -
  from setFrequency_writes[of frequency] obtain t b2 b3 b4 b5 b6 b7 where
    "si5351aSetFrequency frequency = Some t"
    "reg_writes t =
       [(26, 255), (27, 255), (28, b2), (29, b3), (30, b4), (31, b5), (32, b6), (33, b7),
        (42, 0), (43, 1), (44, 0), (45, if frequency \<le> 9050000 then 60 else 20),
        (46, 0), (47, 0), (48, 0), (49, 0),
        (50, 0), (51, 1), (52, 0), (53, if frequency \<le> 9050000 then 60 else 20),
        (54, 0), (55, 0), (56, 0), (57, 0),
        (165, if frequency \<le> 9050000 then 124 else 44), (166, 0)]"
    by blast
  then show ?thesis
    by (simp add: writes_to_def reg_consts bit_numeral_simps)
qed

text \<open>C4 at 14,199,605 Hz.\<close>

theorem phase_offset_writes_witness:
  "\<exists>t. si5351aSetFrequency 14199605 = Some t
       \<and> writes_to CLK0_PHOFF CLK0_PHOFF t = [(CLK0_PHOFF, 44)]
       \<and> writes_to CLK1_PHOFF CLK1_PHOFF t = [(CLK1_PHOFF, 0)]
       \<and> \<not> bit (44 :: 8 word) 7"
  using phase_offset_writes[of 14199605] by simp

text \<open>
  C5: the bytes written at registers 42 to 49 are the integer-mode frame of the selected
  divider with the output divider code for division by one, that is \<open>P1 = 128 \<times> divider - 512\<close>,
  \<open>P2 = 0\<close>, \<open>P3 = 1\<close>, for every frequency (so in particular from 3.5 MHz to 9.05 MHz
  with 124 and above 9.05 MHz up to 30 MHz with 44); registers 50 to 57 receive the same
  bytes.
\<close>

theorem multisynth_frames:
  "\<exists>t. si5351aSetFrequency frequency = Some t
       \<and> writes_to 42 49 t =
           [(42, 0), (43, 1), (44, 0), (45, if frequency \<le> 9050000 then 60 else 20),
            (46, 0), (47, 0), (48, 0), (49, 0)]
       \<and> writes_to 42 49 t =
           reg_writes (setupMultisynth SI_SYNTH_MS_0 (if frequency \<le> 9050000 then 124 else 44)
                         SI_R_DIV_1)
       \<and> unpack_frame (map snd (writes_to 42 49 t)) =
           Some (if frequency \<le> 9050000 then 128 * 124 - 512 else 128 * 44 - 512, 0, 1)
       \<and> map fst (writes_to 50 57 t) = [50, 51, 52, 53, 54, 55, 56, 57]
       \<and> map snd (writes_to 50 57 t) = map snd (writes_to 42 49 t)"
proof -
  from setFrequency_writes[of frequency] obtain t b2 b3 b4 b5 b6 b7 where
    "si5351aSetFrequency frequency = Some t"
    "reg_writes t =
       [(26, 255), (27, 255), (28, b2), (29, b3), (30, b4), (31, b5), (32, b6), (33, b7),
        (42, 0), (43, 1), (44, 0), (45, if frequency \<le> 9050000 then 60 else 20),
        (46, 0), (47, 0), (48, 0), (49, 0),
        (50, 0), (51, 1), (52, 0), (53, if frequency \<le> 9050000 then 60 else 20),
        (54, 0), (55, 0), (56, 0), (57, 0),
        (165, if frequency \<le> 9050000 then 124 else 44), (166, 0)]"
    by blast
  then show ?thesis
    by (simp add: writes_to_def reg_consts unpack_frame_def setupMultisynth_124
        setupMultisynth_44)
qed

text \<open>
  C6: the registers written by a call are, in this order, 26 to 33, 42 to 49, 50 to 57, 165
  and 166.
\<close>

theorem write_order:
  "map_option (map fst \<circ> reg_writes) (si5351aSetFrequency frequency) =
     Some [26, 27, 28, 29, 30, 31, 32, 33,
           42, 43, 44, 45, 46, 47, 48, 49,
           50, 51, 52, 53, 54, 55, 56, 57,
           165, 166]"
proof -
  from setFrequency_writes[of frequency] obtain t b2 b3 b4 b5 b6 b7 where
    "si5351aSetFrequency frequency = Some t"
    "reg_writes t =
       [(26, 255), (27, 255), (28, b2), (29, b3), (30, b4), (31, b5), (32, b6), (33, b7),
        (42, 0), (43, 1), (44, 0), (45, if frequency \<le> 9050000 then 60 else 20),
        (46, 0), (47, 0), (48, 0), (49, 0),
        (50, 0), (51, 1), (52, 0), (53, if frequency \<le> 9050000 then 60 else 20),
        (54, 0), (55, 0), (56, 0), (57, 0),
        (165, if frequency \<le> 9050000 then 124 else 44), (166, 0)]"
    by blast
  then show ?thesis by simp
qed

text \<open>
  C7: for a frequency from 3.5 MHz to 30 MHz the planned multiplier \<open>mult + num / denom\<close>
  lies between 15 and 90.
\<close>

theorem multiplier_range:
  assumes "3500000 \<le> frequency" "frequency \<le> 30000000"
  shows "\<exists>v. si5351aSetFrequency_locals frequency = Some v
           \<and> 15 \<le> (of_nat (unat (sf_mult v)) + of_nat (unat (sf_num v)) / of_nat (unat (sf_denom v)) :: rat)
           \<and> (of_nat (unat (sf_mult v)) + of_nat (unat (sf_num v)) / of_nat (unat (sf_denom v)) :: rat) \<le> 90"
proof -
  from locals_total[of frequency] obtain v where
    v: "si5351aSetFrequency_locals frequency = Some v"
    and m: "sf_mult v = ucast (ucast (if frequency \<le> 9050000 then 124 else 44 :: 16 word) * frequency div Si5351A_XTAL_FREQ)"
    and d: "sf_denom v = 1048575"
    and k: "unat (sf_num v) \<le> 1048575"
    by fastforce
  from mult_range[OF assms] have mr: "15 \<le> unat (sf_mult v)" "unat (sf_mult v) \<le> 52"
    unfolding m by blast+
  define M :: rat where "M = of_nat (unat (sf_mult v))"
  define K :: rat where "K = of_nat (unat (sf_num v))"
  have "(of_nat 15 :: rat) \<le> of_nat (unat (sf_mult v))" "(of_nat (unat (sf_mult v)) :: rat) \<le> of_nat 52"
    "(of_nat (unat (sf_num v)) :: rat) \<le> of_nat 1048575"
    using mr k by (simp_all only: of_nat_le_iff)
  then have b: "15 \<le> M" "M \<le> 52" "K \<le> 1048575" unfolding M_def K_def by simp_all
  have "0 \<le> K" unfolding K_def by (rule of_nat_0_le_iff)
  note b = b this
  then have "15 \<le> M + K / 1048575" "M + K / 1048575 \<le> 90" by linarith+
  then show ?thesis using v unfolding M_def K_def by (auto simp: d)
qed

text \<open>C7 at 7,100,000 Hz, where the multiplier is \<open>35 + 227796 / 1048575\<close>.\<close>

theorem multiplier_range_witness:
  "(3500000 :: 32 word) \<le> 7100000 \<and> (7100000 :: 32 word) \<le> 30000000
   \<and> (\<exists>v. si5351aSetFrequency_locals 7100000 = Some v
           \<and> sf_mult v = 35 \<and> sf_num v = 227796 \<and> sf_denom v = 1048575
           \<and> 15 \<le> (of_nat (unat (sf_mult v)) + of_nat (unat (sf_num v)) / of_nat (unat (sf_denom v)) :: rat)
           \<and> (of_nat (unat (sf_mult v)) + of_nat (unat (sf_num v)) / of_nat (unat (sf_denom v)) :: rat) \<le> 90)"
  using multiplier_range[of 7100000] by (simp add: locals_7100000)

text \<open>
  C8 as stated fails: at 7,100,000 Hz the remainder is not 19,730,905 and the numerator is
  not 827,532.
\<close>

theorem worked_example_S1_counterexample:
  "map_option sf_l (si5351aSetFrequency_locals 7100000) \<noteq> Some 19730905
   \<and> map_option sf_num (si5351aSetFrequency_locals 7100000) \<noteq> Some 827532"
  by (simp add: locals_7100000)

text \<open>
  C8 as amended: at 7,100,000 Hz the divider is 124, \<open>pllFreq\<close> is 880,400,000, \<open>mult\<close>
  is 35, the remainder is \<open>880400000 - 35 \<times> 24999117 = 5430905\<close>, the numerator is 227,796,
  which is the exact floor of \<open>5430905 \<times> 1048575 / 24999117\<close>, and the denominator is
  1,048,575.
\<close>

theorem worked_example_S1:
  "si5351aSetFrequency_locals 7100000 =
     Some \<lparr>sf_divider = 124, sf_pllFreq = 880400000, sf_mult = 35, sf_l = 5430905,
           sf_num = 227796, sf_denom = 1048575\<rparr>
   \<and> spec_num 5430905 = 227796"
  by (simp add: locals_7100000 spec_num_def Si5351A_XTAL_FREQ_def)

text \<open>
  C9: the calls at 7,100,000 Hz and at 7,100,010 Hz write different bytes to registers 31 and
  32 of the PLL frame and the same bytes to registers 42 to 57.
\<close>

theorem small_retune:
  "map_option (writes_to 26 33) (si5351aSetFrequency 7100000) =
     Some [(26, 255), (27, 255), (28, 0), (29, 15), (30, 155), (31, 252), (32, 234), (33, 27)]
   \<and> map_option (writes_to 26 33) (si5351aSetFrequency 7100010) =
     Some [(26, 255), (27, 255), (28, 0), (29, 15), (30, 155), (31, 253), (32, 4), (33, 27)]
   \<and> map_option (writes_to 26 33) (si5351aSetFrequency 7100010)
       \<noteq> map_option (writes_to 26 33) (si5351aSetFrequency 7100000)
   \<and> map_option (writes_to 42 57) (si5351aSetFrequency 7100000) =
     Some [(42, 0), (43, 1), (44, 0), (45, 60), (46, 0), (47, 0), (48, 0), (49, 0),
           (50, 0), (51, 1), (52, 0), (53, 60), (54, 0), (55, 0), (56, 0), (57, 0)]
   \<and> map_option (writes_to 42 57) (si5351aSetFrequency 7100010)
       = map_option (writes_to 42 57) (si5351aSetFrequency 7100000)"
proof -
  obtain t where t: "si5351aSetFrequency 7100000 = Some t"
    "reg_writes t = [(26, 255), (27, 255), (28, 0), (29, 15), (30, 155), (31, 252), (32, 234), (33, 27),
           (42, 0), (43, 1), (44, 0), (45, 60), (46, 0), (47, 0), (48, 0), (49, 0),
           (50, 0), (51, 1), (52, 0), (53, 60), (54, 0), (55, 0), (56, 0), (57, 0),
           (165, 124), (166, 0)]"
    using setFrequency_7100000 by auto
  obtain u where u: "si5351aSetFrequency 7100010 = Some u"
    "reg_writes u = [(26, 255), (27, 255), (28, 0), (29, 15), (30, 155), (31, 253), (32, 4), (33, 27),
           (42, 0), (43, 1), (44, 0), (45, 60), (46, 0), (47, 0), (48, 0), (49, 0),
           (50, 0), (51, 1), (52, 0), (53, 60), (54, 0), (55, 0), (56, 0), (57, 0),
           (165, 124), (166, 0)]"
    using setFrequency_7100010 by auto
  show ?thesis by (simp add: t u writes_to_def)
qed

text \<open>
  C10: for every 32-bit frequency at least one of the two guards of lines 19 and 20 holds,
  so \<^verbatim>\<open>divider\<close> has been assigned when line 21 reads it.
\<close>

theorem divider_initialized:
  "((frequency :: 32 word) < 9050001 \<or> frequency > 9050000)
   \<and> assign_divider frequency \<noteq> None"
  unfolding assign_divider_def Let_def
  by (auto simp: word_le_nat_alt word_less_nat_alt)

end
